theory Spec2Isabelle
  imports Complex_Main
begin

section \<open>Lira terminal interface: window containers\<close>

text \<open>
  This theory embeds \<^verbatim>\<open>src/lira/tui/windows.py\<close>: the page stack of
  \<^verbatim>\<open>WindowContainer\<close> and of its subclasses \<^verbatim>\<open>ContentArea\<close>,
  \<^verbatim>\<open>SidebarMenu\<close> and \<^verbatim>\<open>StatusBar\<close>, the rendering of a document tree
  into formatted text, and the two-phase notification of the status bar.
\<close>

subsection \<open>Errors and external calls\<close>

text \<open>
  The Python exceptions that the modelled statements can raise. \<open>RecursionError\<close> is what
  the interpreter raises when the nesting of calls exceeds its limit.
\<close>

datatype error = IndexError | KeyError | RecursionError

text \<open>
  The calls that leave the module, in the order they are made:
  \<^verbatim>\<open>layout.get_focusable_windows()\<close>, \<^verbatim>\<open>layout.focus(window)\<close>,
  \<^verbatim>\<open>set_title()\<close> and \<^verbatim>\<open>get_app().invalidate()\<close>.
\<close>

datatype 'w call = GetFocusableWindows | LayoutFocus 'w | SetTitle | Invalidate

subsection \<open>WindowContainer\<close>

text \<open>
  A container owns the list \<open>pages\<close>. The layout of the application (reached through
  \<^verbatim>\<open>self.tui.app.layout\<close>) holds the window that has the input focus; \<open>calls\<close> logs
  the external calls. Pages are widget objects of type \<open>'v\<close>: Python objects that define
  neither \<^verbatim>\<open>__bool__\<close> nor \<^verbatim>\<open>__len__\<close>, hence true in a condition; an omitted
  (or \<^verbatim>\<open>None\<close>) argument is \<open>None\<close>.
\<close>

record ('v, 'w) window_container =
  pages :: "'v list"
  layout_focus :: "'w option"
  calls :: "'w call list"

text \<open>
  What a container takes from its surroundings: the focusable windows that the layout
  reports while the container shows the given pages, and the widget that
  \<^verbatim>\<open>_get_default_container\<close> of the class builds.
\<close>

record ('v, 'w) tui =
  get_focusable_windows :: "'v list \<Rightarrow> 'w list"
  get_default_container :: "'v"

text \<open>\<^verbatim>\<open>next(layout.get_focusable_windows(), None)\<close>, then \<^verbatim>\<open>layout.focus(window)\<close>
  when there is one.\<close>

definition focus :: "('v, 'w) tui \<Rightarrow> ('v, 'w) window_container \<Rightarrow> ('v, 'w) window_container" where
  "focus T s =
     (let s1 = s\<lparr>calls := calls s @ [GetFocusableWindows]\<rparr>
      in case get_focusable_windows T (pages s) of
           [] \<Rightarrow> s1
         | window # _ \<Rightarrow> s1\<lparr>layout_focus := Some window,
                              calls := calls s1 @ [LayoutFocus window]\<rparr>)"

definition get_container :: "('v, 'w) tui \<Rightarrow> ('v, 'w) window_container \<Rightarrow> 'v" where
  "get_container T s = (if pages s \<noteq> [] then last (pages s) else get_default_container T)"

definition push :: "('v, 'w) tui \<Rightarrow> 'v \<Rightarrow> ('v, 'w) window_container \<Rightarrow> ('v, 'w) window_container" where
  "push T widget s = focus T (s\<lparr>pages := pages s @ [widget]\<rparr>)"

text \<open>\<^verbatim>\<open>list.pop()\<close>: the list without its last element; IndexError on the empty list.\<close>

definition list_pop :: "'a list \<Rightarrow> error + 'a list" where
  "list_pop xs = (if xs = [] then Inl IndexError else Inr (butlast xs))"

definition pop :: "('v, 'w) tui \<Rightarrow> ('v, 'w) window_container \<Rightarrow> error + ('v, 'w) window_container" where
  "pop T s =
     (if length (pages s) \<le> 1 then Inr s
      else case list_pop (pages s) of
             Inl e \<Rightarrow> Inl e
           | Inr ps \<Rightarrow> Inr (focus T (s\<lparr>pages := ps\<rparr>)))"

text \<open>\<^verbatim>\<open>widget = widget or self._get_default_container()\<close>, then \<^verbatim>\<open>self.pages = [widget]\<close>.\<close>

definition reset :: "('v, 'w) tui \<Rightarrow> 'v option \<Rightarrow> ('v, 'w) window_container \<Rightarrow> ('v, 'w) window_container" where
  "reset T widget s =
     s\<lparr>pages := [case widget of None \<Rightarrow> get_default_container T | Some w \<Rightarrow> w]\<rparr>"

subsection \<open>SidebarMenu\<close>

text \<open>\<^verbatim>\<open>SidebarMenu.pop\<close>: the inherited pop, then \<^verbatim>\<open>set_title()\<close> if at most one
  page is left. The back button is shown while there is more than one page.\<close>

definition sidebar_pop :: "('v, 'w) tui \<Rightarrow> ('v, 'w) window_container \<Rightarrow> error + ('v, 'w) window_container" where
  "sidebar_pop T s =
     (case pop T s of
        Inl e \<Rightarrow> Inl e
      | Inr s' \<Rightarrow>
          Inr (if length (pages s') \<le> 1 then s'\<lparr>calls := calls s' @ [SetTitle]\<rparr> else s'))"

definition back_button_visible :: "('v, 'w) window_container \<Rightarrow> bool" where
  "back_button_visible s = (length (pages s) > 1)"

subsection \<open>Sequences of operations\<close>

text \<open>The classes of the module; only \<^verbatim>\<open>SidebarMenu\<close> overrides \<^verbatim>\<open>pop\<close>.\<close>

datatype component = WindowContainer | ContentArea | SidebarMenu | StatusBar

datatype 'v op = Push 'v | Pop | Reset "'v option"

fun apply_op :: "component \<Rightarrow> ('v, 'w) tui \<Rightarrow> 'v op \<Rightarrow> ('v, 'w) window_container
    \<Rightarrow> error + ('v, 'w) window_container" where
  "apply_op c T (Push widget) s = Inr (push T widget s)"
| "apply_op c T Pop s = (if c = SidebarMenu then sidebar_pop T s else pop T s)"
| "apply_op c T (Reset widget) s = Inr (reset T widget s)"

fun run :: "component \<Rightarrow> ('v, 'w) tui \<Rightarrow> 'v op list \<Rightarrow> ('v, 'w) window_container
    \<Rightarrow> error + ('v, 'w) window_container" where
  "run c T [] s = Inr s"
| "run c T (x # xs) s = (case apply_op c T x s of Inl e \<Rightarrow> Inl e | Inr s' \<Rightarrow> run c T xs s')"

text \<open>The state that \<^verbatim>\<open>__init__\<close> leaves: no page.\<close>

definition init :: "('v, 'w) window_container" where
  "init = \<lparr>pages = [], layout_focus = None, calls = []\<rparr>"

text \<open>A concrete surrounding for examples: views are strings, windows are numbers, the
  layout reports one focusable window per page that starts with the letter f.\<close>

definition demo_tui :: "(string, nat) tui" where
  "demo_tui = \<lparr>get_focusable_windows = (\<lambda>ps. map length (filter (\<lambda>p. take 1 p = ''f'') ps)),
               get_default_container = ''Empty container''\<rparr>"

section \<open>ContentArea: rendering a document tree\<close>

subsection \<open>Document nodes and formatted text\<close>

text \<open>
  Modelled from the spec: the node classes of \<^verbatim>\<open>lira.parsers.nodes\<close> are not part of
  the sources at hand. A DocumentNode is "a tree node with a tag, a set of named options
  (e.g., a section's title, a code block's language), an ordered sequence of child
  DocumentNodes, and a leaf-text accessor"; an absent option reads as \<^verbatim>\<open>None\<close>.
  The field \<open>node_text\<close> is what \<^verbatim>\<open>node.text()\<close> returns.
\<close>

record options =
  title :: "string option"
  language :: "string option"

datatype node = Node (tagname: string) (options: options) (children: "node list") (node_text: string)

text \<open>
  Formatted text of prompt_toolkit is a list of fragments, each a pair of a style string
  and a text. A lexer of pygments is modelled by what \<^verbatim>\<open>pygments.lex\<close> makes of a
  source text with it: a list of token type (by its name) and text. \<^verbatim>\<open>PygmentsTokens\<close> wraps such a
  list; it is turned into fragments only when the interface is drawn.
\<close>

type_synonym fragment = "string \<times> string"

type_synonym token = string

type_synonym lexer = "string \<Rightarrow> (token \<times> string) list"

datatype formatted = FormattedText "fragment list" | PygmentsTokens "(token \<times> string) list"

text \<open>
  \<^verbatim>\<open>to_formatted_text(value, style)\<close> of prompt_toolkit on the two kinds of value that
  reach it here: \<^verbatim>\<open>None\<close> gives no fragment, a string gives one fragment with the
  empty style; a non-empty \<open>style\<close> is then put in front of the style of every fragment,
  as \<^verbatim>\<open>f"{style} {item_style}"\<close>.
\<close>

definition to_formatted_text :: "string option \<Rightarrow> string \<Rightarrow> fragment list" where
  "to_formatted_text val style =
     (let result = (case val of None \<Rightarrow> [] | Some s \<Rightarrow> [('''', s)])
      in if style \<noteq> ''''
         then map (\<lambda>(item_style, item_text). (style @ '' '' @ item_style, item_text)) result
         else result)"

text \<open>The class attribute \<^verbatim>\<open>ContentArea.style\<close>; a missing key raises KeyError.\<close>

definition style :: "(string \<times> string) list" where
  "style = [(''Section'', ''class:title''), (''Text'', ''class:text''),
            (''Strong'', ''class:strong''), (''Emphasis'', ''class:emphasis'')]"

definition style_getitem :: "string \<Rightarrow> error + string" where
  "style_getitem tag = (case map_of style tag of None \<Rightarrow> Inl KeyError | Some st \<Rightarrow> Inr st)"

subsection \<open>textwrap.indent\<close>

text \<open>
  \<^verbatim>\<open>textwrap.indent(text, prefix)\<close> of the Python library: the text is cut into lines
  that keep their line ends (\<^verbatim>\<open>str.splitlines(True)\<close>), and the prefix is put in
  front of every line that does not consist of white space only. A character is a code
  point below 256: a line ends at LF, VT, FF, CR (CR LF counts as one end), FS, GS, RS
  or NEL (0x85), and the white space is these, TAB, US, the blank and the no-break
  space (0xA0), as for \<^verbatim>\<open>str.splitlines\<close> and \<^verbatim>\<open>str.strip\<close>.
\<close>

abbreviation LF :: char where "LF \<equiv> CHR 0x0A"
abbreviation CR :: char where "CR \<equiv> CHR 0x0D"

definition is_line_boundary :: "char \<Rightarrow> bool" where
  "is_line_boundary c =
     (c = LF \<or> c = CHR 0x0B \<or> c = CHR 0x0C \<or> c = CR \<or> c = CHR 0x1C \<or> c = CHR 0x1D \<or> c = CHR 0x1E
      \<or> c = CHR 0x85)"

definition isspace :: "char \<Rightarrow> bool" where
  "isspace c = (is_line_boundary c \<or> c = CHR 0x09 \<or> c = CHR 0x1F \<or> c = CHR '' '' \<or> c = CHR 0xA0)"

fun splitlines :: "string \<Rightarrow> string \<Rightarrow> string list" where
  "splitlines cur [] = (if cur = [] then [] else [cur])"
| "splitlines cur [c] = [cur @ [c]]"
| "splitlines cur (c # d # cs) =
     (if c = CR \<and> d = LF then (cur @ [c, d]) # splitlines [] cs
      else if is_line_boundary c then (cur @ [c]) # splitlines [] (d # cs)
      else splitlines (cur @ [c]) (d # cs))"

definition indent :: "string \<Rightarrow> string \<Rightarrow> string" where
  "indent txt prefix =
     concat (map (\<lambda>line. if filter (\<lambda>c. \<not> isspace c) line \<noteq> [] then prefix @ line else line)
               (splitlines [] txt))"

subsection \<open>The renderer\<close>

definition get_separator :: "formatted list" where
  "get_separator = [FormattedText (to_formatted_text (Some [LF, LF]) '''')]"

text \<open>
  \<^verbatim>\<open>_parse_code_block\<close>. \<^verbatim>\<open>get_lexer\<close> of \<^verbatim>\<open>lira.tui.utils\<close> is a parameter:
  it maps the declared language to a lexer, or to \<^verbatim>\<open>None\<close>.
\<close>

definition parse_code_block :: "(string option \<Rightarrow> lexer option) \<Rightarrow> node \<Rightarrow> formatted list" where
  "parse_code_block get_lexer node =
     (let code = indent (node_text node) ''  ''
      in case get_lexer (language (options node)) of
           Some lexer \<Rightarrow> [PygmentsTokens (lexer code)]
         | None \<Rightarrow> [FormattedText (to_formatted_text (Some code) ''class:text'')])"

text \<open>
  The loop \<^verbatim>\<open>for child in node.children\<close> of \<^verbatim>\<open>_get_content\<close>, with the content
  collected so far. \<open>recurse\<close> stands for the recursive call \<^verbatim>\<open>self._get_content\<close>.
  For a child tagged Section the source passes \<open>node\<close>, the node whose children are being
  visited, to the recursive call; for a Paragraph it passes the child.
\<close>

fun children_loop :: "(node \<Rightarrow> error + formatted list) \<Rightarrow> (string option \<Rightarrow> lexer option)
    \<Rightarrow> node \<Rightarrow> node list \<Rightarrow> formatted list \<Rightarrow> error + formatted list" where
  "children_loop recurse get_lexer node [] content = Inr content"
| "children_loop recurse get_lexer node (child # rest) content =
     (let tag = tagname child in
      if tag = ''Section'' then
        (case recurse node of
           Inl e \<Rightarrow> Inl e
         | Inr sub \<Rightarrow> children_loop recurse get_lexer node rest (content @ sub))
      else if tag = ''Paragraph'' then
        (case recurse child of
           Inl e \<Rightarrow> Inl e
         | Inr sub \<Rightarrow> children_loop recurse get_lexer node rest (content @ get_separator @ sub))
      else if tag = ''CodeBlock'' then
        children_loop recurse get_lexer node rest
          (content @ get_separator @ parse_code_block get_lexer child)
      else if tag = ''TestBlock'' then
        children_loop recurse get_lexer node rest
          (content @ [FormattedText (to_formatted_text (Some ([LF, LF] @ '' [TestBlock]'')) '''')])
      else if tag \<in> set [''Text'', ''Strong'', ''Emphasis''] then
        (case style_getitem tag of
           Inl e \<Rightarrow> Inl e
         | Inr st \<Rightarrow> children_loop recurse get_lexer node rest
                      (content @ [FormattedText (to_formatted_text (Some (node_text child)) st)]))
      else children_loop recurse get_lexer node rest content)"

text \<open>
  \<^verbatim>\<open>_get_content\<close>. The first argument bounds the nesting of the recursive calls:
  Python raises RecursionError when the nesting of calls exceeds the limit of the
  interpreter, and a call that would nest without end returns under no bound.
\<close>

fun get_content :: "nat \<Rightarrow> (string option \<Rightarrow> lexer option) \<Rightarrow> node
    \<Rightarrow> error + formatted list" where
  "get_content 0 get_lexer node = Inl RecursionError"
| "get_content (Suc depth) get_lexer node =
     (let tag = tagname node in
      case (if tag = ''Section''
            then (case style_getitem tag of
                    Inl e \<Rightarrow> Inl e
                  | Inr st \<Rightarrow> Inr [FormattedText (to_formatted_text (title (options node)) st)])
            else Inr []) of
        Inl e \<Rightarrow> Inl e
      | Inr content \<Rightarrow>
          children_loop (get_content depth get_lexer) get_lexer node (children node) content)"

text \<open>
  \<^verbatim>\<open>render_section\<close>: the content area is reset to a \<^verbatim>\<open>FormattedTextArea\<close> over the
  merged content. \<^verbatim>\<open>merge_formatted_text\<close> only wraps the list; the items are joined
  when the area is drawn.
\<close>

datatype view = DefaultContainer | FormattedTextArea "formatted list"

definition render_section :: "nat \<Rightarrow> (string option \<Rightarrow> lexer option) \<Rightarrow> (view, 'w) tui
    \<Rightarrow> node \<Rightarrow> (view, 'w) window_container \<Rightarrow> error + (view, 'w) window_container" where
  "render_section depth get_lexer T section s =
     (case get_content depth get_lexer section of
        Inl e \<Rightarrow> Inl e
      | Inr parsed_section \<Rightarrow> Inr (reset T (Some (FormattedTextArea parsed_section)) s))"

text \<open>Nodes and a lexer lookup for examples: only python resolves, to a lexer that
  makes one token of each character.\<close>

definition no_options :: options where
  "no_options = \<lparr>title = None, language = None\<rparr>"

definition leaf_node :: "string \<Rightarrow> string \<Rightarrow> node" where
  "leaf_node tag txt = Node tag no_options [] txt"

definition paragraph_node :: "node list \<Rightarrow> node" where
  "paragraph_node cs = Node ''Paragraph'' no_options cs []"

definition section_node :: "string option \<Rightarrow> node list \<Rightarrow> node" where
  "section_node t cs = Node ''Section'' \<lparr>title = t, language = None\<rparr> cs []"

definition code_block_node :: "string option \<Rightarrow> string \<Rightarrow> node" where
  "code_block_node lang txt = Node ''CodeBlock'' \<lparr>title = None, language = lang\<rparr> [] txt"

definition demo_get_lexer :: "string option \<Rightarrow> lexer option" where
  "demo_get_lexer lang =
     (if lang = Some ''python'' then Some (\<lambda>code. map (\<lambda>c. (''Token.Text'', [c])) code) else None)"

text \<open>
  Two measures of a tree, for stating when the renderer returns. A tree is \<open>renderable\<close>
  when no node that the renderer visits has a child tagged Section: the renderer visits
  the root and, from a visited node, its children tagged Paragraph. \<open>height\<close> is the
  number of nodes on the longest path down from the node.
\<close>

fun renderable :: "node \<Rightarrow> bool" where
  "renderable (Node tag opts cs tx) =
     list_all (\<lambda>c. tagname c \<noteq> ''Section'' \<and> (if tagname c = ''Paragraph'' then renderable c else True)) cs"

fun height :: "node \<Rightarrow> nat" where
  "height (Node tag opts cs tx) = Suc (foldr (\<lambda>c m. max (height c) m) cs 0)"

section \<open>StatusBar: notifications\<close>

text \<open>
  The status bar is a window container with a history. Its pages are the text areas made
  by \<^verbatim>\<open>_get_status_area\<close>, of which only the text matters here; its default
  container is the area with the empty text.
\<close>

datatype text_area = TextArea string

definition get_status_area :: "string \<Rightarrow> text_area" where
  "get_status_area status = TextArea status"

record 'w status_bar =
  base :: "(text_area, 'w) window_container"
  history :: "string list"

definition status_tui :: "(text_area list \<Rightarrow> 'w list) \<Rightarrow> (text_area, 'w) tui" where
  "status_tui focusable = \<lparr>get_focusable_windows = focusable, get_default_container = get_status_area ''''\<rparr>"

text \<open>\<^verbatim>\<open>update_status\<close>: append to the history, reset to the new area, ask for a redraw.\<close>

definition update_status :: "(text_area, 'w) tui \<Rightarrow> string \<Rightarrow> 'w status_bar \<Rightarrow> 'w status_bar" where
  "update_status T status sb =
     (let sb1 = sb\<lparr>history := history sb @ [status]\<rparr>;
          sb2 = sb1\<lparr>base := reset T (Some (get_status_area status)) (base sb1)\<rparr>
      in sb2\<lparr>base := (base sb2)\<lparr>calls := calls (base sb2) @ [Invalidate]\<rparr>\<rparr>)"

text \<open>
  The coroutine \<^verbatim>\<open>_main\<close> of \<^verbatim>\<open>notify\<close> is a list of steps: it sleeps, updates the
  status with the text, sleeps for the delay and updates the status with the default
  argument, the empty string. Time is a rational number of seconds; the literal
  \<^verbatim>\<open>0.1\<close> is taken as one tenth. An omitted delay is 1.5.
\<close>

datatype step = Sleep rat | UpdateStatus string

definition notify :: "string \<Rightarrow> rat option \<Rightarrow> step list" where
  "notify txt delay =
     (let delay = (case delay of None \<Rightarrow> 3 / 2 | Some d \<Rightarrow> d)
      in [Sleep (1 / 10), UpdateStatus txt, Sleep delay, UpdateStatus ''''])"

text \<open>
  One task run by the event loop with no other task touching the status bar. The clock
  starts at the time of the call. \<^verbatim>\<open>asyncio.sleep(d)\<close> suspends the task for \<open>d\<close>
  seconds (not at all for a negative \<open>d\<close>), and the loop resumes it some time later:
  the list gives, for each sleep, how late. When the list is used up the loop never
  resumes the task. The result lists the status bar after each update, with the time of
  the update.
\<close>

fun run_task :: "(text_area, 'w) tui \<Rightarrow> step list \<Rightarrow> rat list \<Rightarrow> rat \<Rightarrow> 'w status_bar
    \<Rightarrow> (rat \<times> 'w status_bar) list" where
  "run_task T [] lateness now sb = []"
| "run_task T (Sleep d # steps) [] now sb = []"
| "run_task T (Sleep d # steps) (late # lateness) now sb =
     run_task T steps lateness (now + max d 0 + late) sb"
| "run_task T (UpdateStatus status # steps) lateness now sb =
     (let sb' = update_status T status sb in (now, sb') # run_task T steps lateness now sb')"

definition fresh_status_bar :: "nat status_bar" where
  "fresh_status_bar = \<lparr>base = \<lparr>pages = [], layout_focus = None, calls = []\<rparr>, history = []\<rparr>"

section \<open>Properties of the page stack\<close>

lemma pages_focus: "pages (focus T s) = pages s"
  by (simp add: focus_def Let_def split: list.splits)

lemma pages_push: "pages (push T w s) = pages s @ [w]"
  by (simp add: push_def pages_focus)

lemma pages_reset: "length (pages (reset T w s)) = 1"
  by (simp add: reset_def)

lemma pop_cases:
  "pop T s = Inr (if length (pages s) \<le> 1 then s else focus T (s\<lparr>pages := butlast (pages s)\<rparr>))"
  by (auto simp: pop_def list_pop_def)

lemma sidebar_pop_pages:
  "\<exists>s'. sidebar_pop T s = Inr s' \<and> pages s' = (if length (pages s) \<le> 1 then pages s else butlast (pages s))"
  by (simp add: sidebar_pop_def pop_cases pages_focus)

lemma apply_op_total:
  "\<exists>s'. apply_op c T x s = Inr s' \<and> (pages s \<noteq> [] \<or> x \<noteq> Pop \<longrightarrow> pages s' \<noteq> [])"
proof (cases x)
  case (Push w)
  then show ?thesis by (simp add: pages_push)
next
  case Pop
  show ?thesis
  proof (cases "c = SidebarMenu")
    case True
    obtain s' where s': "sidebar_pop T s = Inr s'"
      "pages s' = (if length (pages s) \<le> 1 then pages s else butlast (pages s))"
      using sidebar_pop_pages by blast
    have "pages s \<noteq> [] \<longrightarrow> pages s' \<noteq> []"
      using s'(2) by (cases "pages s" rule: rev_cases) (auto split: if_splits)
    then show ?thesis using Pop True s'(1) by simp
  next
    case False
    let ?s' = "if length (pages s) \<le> 1 then s else focus T (s\<lparr>pages := butlast (pages s)\<rparr>)"
    have "pages s \<noteq> [] \<longrightarrow> pages ?s' \<noteq> []"
      by (cases "pages s" rule: rev_cases) (auto simp: pages_focus)
    then show ?thesis using Pop False by (simp add: pop_cases)
  qed
next
  case (Reset w)
  then show ?thesis by (simp add: reset_def)
qed

lemma run_keeps_nonempty:
  "pages s \<noteq> [] \<Longrightarrow> \<exists>s'. run c T xs s = Inr s' \<and> pages s' \<noteq> []"
proof (induction xs arbitrary: s)
  case Nil
  then show ?case by simp
next
  case (Cons x xs)
  obtain s1 where s1: "apply_op c T x s = Inr s1" "pages s1 \<noteq> []"
    using apply_op_total [of c T x s] Cons.prems by blast
  then show ?case using Cons.IH [OF s1(2)] by simp
qed

lemma run_total: "\<exists>s'. run c T xs s = Inr s'"
proof (induction xs arbitrary: s)
  case Nil
  then show ?case by simp
next
  case (Cons x xs)
  obtain s1 where "apply_op c T x s = Inr s1"
    using apply_op_total [of c T x s] by blast
  then show ?case using Cons.IH [of s1] by simp
qed

lemma run_append:
  "run c T (xs @ ys) s = (case run c T xs s of Inl e \<Rightarrow> Inl e | Inr s' \<Rightarrow> run c T ys s')"
  by (induction xs arbitrary: s) (auto split: sum.splits)

text \<open>
  Claim C1. Once a push or a reset has occurred, the stack is never empty: whatever
  operations came before the push or reset and whatever push, pop and reset operations
  follow it, on a container of any class and from any state (the fresh one included), the
  run raises nothing and ends with at least one page.
\<close>

theorem stack_never_empty_once_initialized:
  assumes "x \<noteq> Pop"
  shows "\<exists>s'. run c T (before @ x # after) s = Inr s' \<and> 1 \<le> length (pages s')"
proof -
  obtain s0 where s0: "run c T before s = Inr s0"
    using run_total by blast
  obtain s1 where s1: "apply_op c T x s0 = Inr s1" "pages s1 \<noteq> []"
    using apply_op_total [of c T x s0] assms by blast
  obtain s2 where s2: "run c T after s1 = Inr s2" "pages s2 \<noteq> []"
    using run_keeps_nonempty [OF s1(2)] by blast
  have "run c T (before @ x # after) s = Inr s2"
    by (simp add: run_append s0 s1(1) s2(1))
  moreover have "1 \<le> length (pages s2)"
    using s2(2) by (cases "pages s2") auto
  ultimately show ?thesis by blast
qed

theorem stack_never_empty_once_initialized_witness:
  "Push ''menu'' \<noteq> Pop \<and>
   (\<exists>s'. run SidebarMenu demo_tui ([Pop] @ Push ''menu'' # [Pop, Pop, Reset None, Pop]) init = Inr s'
      \<and> 1 \<le> length (pages s'))"
  using stack_never_empty_once_initialized [of "Push ''menu''" SidebarMenu demo_tui "[Pop]" "[Pop, Pop, Reset None, Pop]" init]
  by simp

text \<open>
  Claim C6. With at most one page, \<^verbatim>\<open>pop()\<close> is a no-op and raises nothing: the
  inherited pop returns the very same state, and the pop of \<^verbatim>\<open>SidebarMenu\<close> returns
  normally with the same pages and the same current view.
\<close>

theorem pop_at_floor_is_noop:
  assumes "length (pages s) \<le> 1"
  shows "pop T s = Inr s \<and>
         (\<exists>s'. sidebar_pop T s = Inr s' \<and> pages s' = pages s
            \<and> get_container T s' = get_container T s \<and> layout_focus s' = layout_focus s)"
  using assms by (simp add: pop_def sidebar_pop_def get_container_def)

theorem pop_at_floor_is_noop_witness:
  "length (pages (reset demo_tui (Some ''root'') init)) \<le> 1 \<and>
   pop demo_tui (reset demo_tui (Some ''root'') init) = Inr (reset demo_tui (Some ''root'') init) \<and>
   (\<exists>s'. sidebar_pop demo_tui (reset demo_tui (Some ''root'') init) = Inr s'
      \<and> pages s' = pages (reset demo_tui (Some ''root'') init)
      \<and> get_container demo_tui s' = get_container demo_tui (reset demo_tui (Some ''root'') init)
      \<and> layout_focus s' = layout_focus (reset demo_tui (Some ''root'') init))"
  using pop_at_floor_is_noop [of "reset demo_tui (Some ''root'') init" demo_tui]
  by (simp add: reset_def)

text \<open>
  Claim C7, as stated, at its failing input: a \<^verbatim>\<open>SidebarMenu\<close> with exactly one page.
  The pop changes nothing in the stack, and \<^verbatim>\<open>set_title()\<close> is called all the same.
\<close>

theorem title_reset_on_noop_pop:
  "sidebar_pop demo_tui \<lparr>pages = [''root''], layout_focus = None, calls = []\<rparr>
     = Inr \<lparr>pages = [''root''], layout_focus = None, calls = [SetTitle]\<rparr>"
  by (simp add: sidebar_pop_def pop_def)

text \<open>
  Claim C7, amended. \<^verbatim>\<open>SidebarMenu.pop\<close> calls \<^verbatim>\<open>set_title()\<close> exactly once when
  at most one page is left after it, that is when it starts with at most two pages (the
  step from two pages to one, and also the no-op pop at the floor), and not at all when
  it starts with three pages or more. It never raises.
\<close>

theorem title_reset_iff_root_reached:
  "\<exists>s'. sidebar_pop T s = Inr s' \<and>
     count_list (calls s') SetTitle
       = count_list (calls s) SetTitle + (if length (pages s) \<le> 2 then 1 else 0) \<and>
     (length (pages s') \<le> 1) = (length (pages s) \<le> 2)"
proof (cases "length (pages s) \<le> 1")
  case True
  then show ?thesis by (simp add: sidebar_pop_def pop_def)
next
  case False
  have c: "count_list (calls (focus T r)) SetTitle = count_list (calls r) SetTitle" for r :: "('a, 'b) window_container"
    by (simp add: focus_def Let_def split: list.splits)
  have l: "length (butlast (pages s)) \<le> 1 \<longleftrightarrow> length (pages s) \<le> 2"
    using False by auto
  show ?thesis
    using False l by (simp add: sidebar_pop_def pop_cases pages_focus c)
qed

theorem title_reset_iff_root_reached_witness:
  "\<exists>s'. sidebar_pop demo_tui \<lparr>pages = [''root'', ''chapter''], layout_focus = None, calls = []\<rparr> = Inr s' \<and>
     count_list (calls s') SetTitle = 1 \<and> length (pages s') \<le> 1 \<and> pages s' = [''root'']"
  using title_reset_iff_root_reached [of demo_tui "\<lparr>pages = [''root'', ''chapter''], layout_focus = None, calls = []\<rparr>"]
  by (auto simp: sidebar_pop_def pop_cases pages_focus)

text \<open>
  Claim C10. \<^verbatim>\<open>reset\<close> leaves exactly one page, the given widget or the default of
  the class when none is given; it makes no external call and leaves the focus of the
  layout as it was. \<^verbatim>\<open>push\<close>, and \<^verbatim>\<open>pop\<close> above the floor, do query the layout for
  its focusable windows.
\<close>

theorem reset_never_focuses:
  "pages (reset T widget s) = [case widget of None \<Rightarrow> get_default_container T | Some w \<Rightarrow> w] \<and>
   layout_focus (reset T widget s) = layout_focus s \<and>
   calls (reset T widget s) = calls s \<and>
   (\<exists>cs. calls (push T w s) = calls s @ GetFocusableWindows # cs) \<and>
   (1 < length (pages s) \<longrightarrow>
      (\<exists>s' cs. pop T s = Inr s' \<and> calls s' = calls s @ GetFocusableWindows # cs))"
  by (auto simp: reset_def push_def pop_cases focus_def Let_def split: list.splits)

theorem reset_never_focuses_witness:
  "pages (reset demo_tui None (push demo_tui ''form'' (push demo_tui ''list'' init))) = [''Empty container''] \<and>
   layout_focus (reset demo_tui None (push demo_tui ''form'' (push demo_tui ''list'' init))) = Some 4 \<and>
   calls (reset demo_tui None (push demo_tui ''form'' (push demo_tui ''list'' init)))
     = [GetFocusableWindows, GetFocusableWindows, LayoutFocus 4] \<and>
   1 < length (pages (push demo_tui ''form'' (push demo_tui ''list'' init))) \<and>
   (\<exists>s' cs. pop demo_tui (push demo_tui ''form'' (push demo_tui ''list'' init)) = Inr s'
      \<and> calls s' = calls (push demo_tui ''form'' (push demo_tui ''list'' init)) @ GetFocusableWindows # cs)"
  using reset_never_focuses [of demo_tui None "push demo_tui ''form'' (push demo_tui ''list'' init)" "''x''"]
  by (simp add: reset_def push_def focus_def demo_tui_def init_def)

section \<open>Properties of the renderer\<close>

lemma style_getitem_simps:
  "style_getitem ''Section'' = Inr ''class:title''"
  "style_getitem ''Text'' = Inr ''class:text''"
  "style_getitem ''Strong'' = Inr ''class:strong''"
  "style_getitem ''Emphasis'' = Inr ''class:emphasis''"
  by (simp_all add: style_getitem_def style_def)

text \<open>The style lookups never raise KeyError: the only error of the renderer is
  RecursionError.\<close>

lemma children_loop_error:
  assumes "\<And>n e. recurse n = Inl e \<Longrightarrow> e = RecursionError"
  shows "children_loop recurse gl node cs content = Inl e \<Longrightarrow> e = RecursionError"
proof (induction cs arbitrary: content)
  case Nil
  then show ?case by simp
next
  case (Cons c cs)
  then show ?case
    using assms
    by (auto simp: Let_def style_getitem_simps split: if_splits sum.splits)
qed

lemma get_content_error: "get_content depth gl node = Inl e \<Longrightarrow> e = RecursionError"
proof (induction depth arbitrary: node e)
  case 0
  then show ?case by simp
next
  case (Suc depth)
  have r: "\<And>n e. get_content depth gl n = Inl e \<Longrightarrow> e = RecursionError"
    using Suc.IH by blast
  show ?case
    using Suc.prems children_loop_error [of "get_content depth gl", OF r]
    by (auto simp: Let_def style_getitem_simps split: if_splits sum.splits)
qed

text \<open>A loop that meets a child tagged Section calls \<open>recurse\<close> on the node itself; if
  that call fails, so does the loop, unless it has failed before.\<close>

lemma children_loop_section_fails:
  assumes "recurse node = Inl e0"
  shows "\<exists>c \<in> set cs. tagname c = ''Section'' \<Longrightarrow> \<exists>e. children_loop recurse gl node cs content = Inl e"
proof (induction cs arbitrary: content)
  case Nil
  then show ?case by simp
next
  case (Cons c cs)
  show ?case
  proof (cases "tagname c = ''Section''")
    case True
    then show ?thesis using assms by simp
  next
    case False
    then have "\<exists>c \<in> set cs. tagname c = ''Section''" using Cons.prems by auto
    then have "\<And>content. \<exists>e. children_loop recurse gl node cs content = Inl e"
      using Cons.IH by blast
    then show ?thesis
      using False by (auto simp: Let_def style_getitem_simps split: sum.splits)
  qed
qed

lemma section_child_never_returns:
  assumes "\<exists>c \<in> set (children node). tagname c = ''Section''"
  shows "get_content depth gl node = Inl RecursionError"
proof (induction depth)
  case 0
  show ?case by simp
next
  case (Suc depth)
  have "\<exists>e. children_loop (get_content depth gl) gl node (children node) content = Inl e" for content
    using children_loop_section_fails [of "get_content depth gl" node RecursionError "children node" gl content]
      Suc.IH assms by blast
  then have "\<exists>e. get_content (Suc depth) gl node = Inl e"
    by (auto simp: Let_def style_getitem_simps split: sum.splits)
  then show ?case using get_content_error by blast
qed

text \<open>The loop only appends to the content it is given.\<close>

lemma children_loop_extends:
  "children_loop recurse gl node cs content = Inr r \<Longrightarrow> \<exists>rest. r = content @ rest"
proof (induction cs arbitrary: content)
  case Nil
  then show ?case by simp
next
  case (Cons c cs)
  then show ?case
    by (fastforce simp: Let_def split: if_splits sum.splits)
qed

text \<open>Where the rendering of a Section without title returns, its first item is the
  formatted text with no fragment.\<close>

lemma absent_title_is_empty_span:
  assumes "tagname node = ''Section''" "title (options node) = None"
    "get_content depth gl node = Inr r"
  shows "\<exists>rest. r = FormattedText [] # rest"
proof (cases depth)
  case 0
  then show ?thesis using assms by simp
next
  case (Suc d)
  then have "children_loop (get_content d gl) gl node (children node) [FormattedText []] = Inr r"
    using assms by (simp add: style_getitem_simps to_formatted_text_def)
  then show ?thesis using children_loop_extends by fastforce
qed

lemma height_child: "c \<in> set cs \<Longrightarrow> height c \<le> foldr (\<lambda>c m. max (height c) m) cs 0"
  by (induction cs) auto

lemma children_loop_returns:
  assumes "\<And>c. c \<in> set cs \<Longrightarrow>
     tagname c \<noteq> ''Section'' \<and> (tagname c = ''Paragraph'' \<longrightarrow> (\<exists>r. recurse c = Inr r))"
  shows "\<exists>r. children_loop recurse gl node cs content = Inr r"
  using assms
proof (induction cs arbitrary: content)
  case Nil
  then show ?case by simp
next
  case (Cons c cs)
  have ih: "\<And>content. \<exists>r. children_loop recurse gl node cs content = Inr r"
    using Cons.IH Cons.prems by simp
  have c: "tagname c \<noteq> ''Section''" "tagname c = ''Paragraph'' \<longrightarrow> (\<exists>r. recurse c = Inr r)"
    using Cons.prems [of c] by simp_all
  show ?case
    using c ih by (auto simp: Let_def style_getitem_simps split: sum.splits)
qed

text \<open>On a renderable tree the renderer returns as soon as the bound on the nesting
  reaches the height of the tree.\<close>

lemma get_content_returns:
  "renderable node \<Longrightarrow> height node \<le> depth \<Longrightarrow> \<exists>r. get_content depth gl node = Inr r"
proof (induction depth arbitrary: node)
  case 0
  then show ?case by (cases node) simp
next
  case (Suc depth)
  obtain tag opts cs tx where n: "node = Node tag opts cs tx" by (cases node)
  have "\<And>c. c \<in> set cs \<Longrightarrow>
    tagname c \<noteq> ''Section'' \<and> (tagname c = ''Paragraph'' \<longrightarrow> (\<exists>r. get_content depth gl c = Inr r))"
  proof -
    fix c assume c: "c \<in> set cs"
    have h: "height c \<le> depth"
      using Suc.prems(2) height_child [OF c] n by simp
    have "tagname c \<noteq> ''Section''" "tagname c = ''Paragraph'' \<longrightarrow> renderable c"
      using Suc.prems(1) c n by (auto simp: list_all_iff)
    then show "tagname c \<noteq> ''Section'' \<and> (tagname c = ''Paragraph'' \<longrightarrow> (\<exists>r. get_content depth gl c = Inr r))"
      using Suc.IH h by blast
  qed
  then have "\<exists>r. children_loop (get_content depth gl) gl node cs content = Inr r" for content
    using children_loop_returns by blast
  then show ?case
    using n by (auto simp: Let_def style_getitem_simps split: sum.splits)
qed

text \<open>Lines of \<^verbatim>\<open>textwrap.indent\<close>: a stretch without line boundary, ended by LF, is
  one line.\<close>

lemma splitlines_line:
  "list_all (\<lambda>c. \<not> is_line_boundary c) l \<Longrightarrow>
     splitlines cur (l @ LF # rest) = (cur @ l @ [LF]) # splitlines [] rest"
proof (induction l arbitrary: cur)
  case Nil
  show ?case by (cases rest) (simp_all add: is_line_boundary_def)
next
  case (Cons a l)
  obtain d ds where d: "l @ LF # rest = d # ds" by (cases "l @ LF # rest") auto
  have a: "\<not> is_line_boundary a" "a \<noteq> CR"
    using Cons.prems by (auto simp: is_line_boundary_def)
  have "splitlines cur ((a # l) @ LF # rest) = splitlines (cur @ [a]) (l @ LF # rest)"
    using a d by simp
  then show ?case using Cons.IH [of "cur @ [a]"] Cons.prems by simp
qed

lemma indent_line:
  assumes "list_all (\<lambda>c. \<not> is_line_boundary c) l"
  shows "indent (l @ LF # rest) p = (if list_all isspace l then l else p @ l) @ [LF] @ indent rest p"
proof -
  have "(filter (\<lambda>c. \<not> isspace c) l = []) = list_all isspace l"
    by (induction l) auto
  moreover have "isspace LF" by (simp add: isspace_def is_line_boundary_def)
  ultimately show ?thesis
    using splitlines_line [OF assms, of "[]" rest] by (simp add: indent_def)
qed

lemma indent_lines:
  "list_all (list_all (\<lambda>c. \<not> is_line_boundary c)) ls \<Longrightarrow>
     indent (concat (map (\<lambda>l. l @ [LF]) ls)) p
       = concat (map (\<lambda>l. (if list_all isspace l then l else p @ l) @ [LF]) ls)"
proof (induction ls)
  case Nil
  show ?case by (simp add: indent_def)
next
  case (Cons l ls)
  then show ?case using indent_line [of l "concat (map (\<lambda>l. l @ [LF]) ls)" p] by simp
qed

text \<open>The line end NEL and the no-break space: a line ends at NEL, and a line of
  no-break spaces only gets no prefix.\<close>

lemma indent_nel_and_nbsp:
  "indent (''a'' @ [CHR 0x85] @ ''b'') ''  '' = ''  a'' @ [CHR 0x85] @ ''  b'' \<and>
   indent ([CHR 0xA0, LF] @ ''x'') ''  '' = [CHR 0xA0, LF] @ ''  x''"
  by (simp add: indent_def is_line_boundary_def isspace_def)

text \<open>
  Claim C2, at its failing input: a Section whose only child is a Section. The claim has
  the renderer descend into the child and emit the child's own content, which the
  renderer does produce when called on the child: its title and its text. The source
  calls itself on the parent instead, and again meets the same child: under every bound
  on the nesting the call on the parent ends in RecursionError, and the content of the
  child is never emitted.
\<close>

theorem nested_section_recurses_on_parent:
  "get_content depth gl
     (section_node (Some ''Outer'') [section_node (Some ''Inner'') [leaf_node ''Text'' ''x'']])
   = Inl RecursionError \<and>
   get_content (Suc depth) gl (section_node (Some ''Inner'') [leaf_node ''Text'' ''x''])
   = Inr [FormattedText [(''class:title '', ''Inner'')], FormattedText [(''class:text '', ''x'')]]"
proof
  show "get_content depth gl
     (section_node (Some ''Outer'') [section_node (Some ''Inner'') [leaf_node ''Text'' ''x'']])
   = Inl RecursionError"
    by (rule section_child_never_returns) (simp add: section_node_def)
  show "get_content (Suc depth) gl (section_node (Some ''Inner'') [leaf_node ''Text'' ''x''])
   = Inr [FormattedText [(''class:title '', ''Inner'')], FormattedText [(''class:text '', ''x'')]]"
    by (simp add: section_node_def leaf_node_def no_options_def style_getitem_simps
        to_formatted_text_def)
qed

text \<open>
  Claim C3, where it fails: a node with a child tagged Section. Neither
  \<^verbatim>\<open>_get_content\<close> nor \<^verbatim>\<open>render_section\<close> returns under any bound on the nesting
  of calls; the content area is never reset.
\<close>

theorem render_with_section_child_never_completes:
  assumes "\<exists>c \<in> set (children node). tagname c = ''Section''"
  shows "get_content depth gl node = Inl RecursionError \<and>
         render_section depth gl T node s = Inl RecursionError"
  using section_child_never_returns [OF assms] by (simp add: render_section_def)

theorem render_with_section_child_never_completes_witness:
  "(\<exists>c \<in> set (children (paragraph_node [leaf_node ''Text'' ''a'', section_node (Some ''S'') []])).
      tagname c = ''Section'') \<and>
   get_content 1000 demo_get_lexer (paragraph_node [leaf_node ''Text'' ''a'', section_node (Some ''S'') []])
     = Inl RecursionError \<and>
   render_section 1000 demo_get_lexer \<lparr>get_focusable_windows = (\<lambda>ps. [0::nat]), get_default_container = DefaultContainer\<rparr>
     (paragraph_node [leaf_node ''Text'' ''a'', section_node (Some ''S'') []]) init = Inl RecursionError"
proof -
  have h: "\<exists>c \<in> set (children (paragraph_node [leaf_node ''Text'' ''a'', section_node (Some ''S'') []])).
      tagname c = ''Section''"
    by (simp add: paragraph_node_def section_node_def leaf_node_def)
  show ?thesis
    using h render_with_section_child_never_completes [OF h] by blast
qed

text \<open>
  Claim C4. The Section titled T with two Paragraph children, holding the Text nodes A and
  B, renders (under any bound of at least two nested calls, with any lexer lookup) to
  exactly five items: the title T in the title style, the separator of two line feeds,
  A in the text style, the separator, B in the text style.
\<close>

theorem section_with_two_paragraphs:
  "get_content (Suc (Suc depth)) gl
     (section_node (Some ''T'')
        [paragraph_node [leaf_node ''Text'' ''A''], paragraph_node [leaf_node ''Text'' ''B'']])
   = Inr [FormattedText [(''class:title '', ''T'')],
          FormattedText [('''', [LF, LF])],
          FormattedText [(''class:text '', ''A'')],
          FormattedText [('''', [LF, LF])],
          FormattedText [(''class:text '', ''B'')]]"
  by (simp add: section_node_def paragraph_node_def leaf_node_def no_options_def
      style_getitem_simps to_formatted_text_def get_separator_def)

text \<open>
  Claim C5. A code block is rendered from its text indented with two blanks. If a lexer
  resolves for the declared language, the result is the one item holding the tokens of
  that lexer over the indented text; if none resolves, it is the one item with the one
  fragment of the indented text in the text style. Indenting puts the two blanks in
  front of every line that is not blank: shown here for a text of lines ended by LF.
\<close>

theorem code_block_rendering:
  "(\<forall>lexer. get_lexer (language (options node)) = Some lexer \<longrightarrow>
      parse_code_block get_lexer node = [PygmentsTokens (lexer (indent (node_text node) ''  ''))]) \<and>
   (get_lexer (language (options node)) = None \<longrightarrow>
      parse_code_block get_lexer node = [FormattedText [(''class:text '', indent (node_text node) ''  '')]]) \<and>
   (list_all (list_all (\<lambda>c. \<not> is_line_boundary c)) ls \<longrightarrow>
      indent (concat (map (\<lambda>l. l @ [LF]) ls)) ''  ''
        = concat (map (\<lambda>l. (if list_all isspace l then l else ''  '' @ l) @ [LF]) ls))"
  using indent_lines [of ls "''  ''"]
  by (simp add: parse_code_block_def to_formatted_text_def)

theorem code_block_rendering_witness:
  "demo_get_lexer (language (options (code_block_node (Some ''python'') ''x=1''))) \<noteq> None \<and>
   parse_code_block demo_get_lexer (code_block_node (Some ''python'') ''x=1'')
     = [PygmentsTokens [(''Token.Text'', '' ''), (''Token.Text'', '' ''), (''Token.Text'', ''x''),
                        (''Token.Text'', ''=''), (''Token.Text'', ''1'')]] \<and>
   demo_get_lexer (language (options (code_block_node (Some ''cobol'') ''x=1''))) = None \<and>
   parse_code_block demo_get_lexer (code_block_node (Some ''cobol'') ''x=1'')
     = [FormattedText [(''class:text '', ''  x=1'')]] \<and>
   list_all (list_all (\<lambda>c. \<not> is_line_boundary c)) [''if x:'', '''', '' y''] \<and>
   indent (concat (map (\<lambda>l. l @ [LF]) [''if x:'', '''', '' y''])) ''  ''
     = ''  if x:'' @ [LF] @ [LF] @ ''   y'' @ [LF]"
  using code_block_rendering [of demo_get_lexer "code_block_node (Some ''python'') ''x=1''" "[''if x:'', '''', '' y'']"]
    code_block_rendering [of demo_get_lexer "code_block_node (Some ''cobol'') ''x=1''" "[]"]
  by (simp add: demo_get_lexer_def code_block_node_def indent_def is_line_boundary_def isspace_def)

text \<open>
  Claim C8, at its failing input: a Section without title that has a Section among its
  children. The rendering ends in RecursionError under every bound on the nesting: the
  nested Section sends the renderer back to the parent, as for claim C2.
\<close>

theorem untitled_section_with_section_child_crashes:
  "get_content depth gl (section_node None [section_node None []]) = Inl RecursionError"
  by (rule section_child_never_returns) (simp add: section_node_def)

section \<open>Properties of the status bar\<close>

text \<open>
  Claim C9. A call of \<^verbatim>\<open>notify\<close> whose task is resumed after both sleeps, with no
  other task at the status bar, makes exactly two updates. The first comes no sooner
  than the pause of a tenth of a second after the call and appends the text to the
  history; the second comes no sooner than the delay (1.5 when omitted) after the first
  and appends the empty string. Each update shows the area of its text as the only page and ends with a
  call for a redraw; nothing else is called.
\<close>

theorem notify_two_phases:
  assumes "0 \<le> late1" "0 \<le> late2"
  shows "\<exists>t1 sb1 t2 sb2.
     run_task T (notify txt delay) [late1, late2] now sb = [(t1, sb1), (t2, sb2)] \<and>
     now + 1 / 10 \<le> t1 \<and> t1 + (case delay of None \<Rightarrow> 3 / 2 | Some d \<Rightarrow> d) \<le> t2 \<and>
     history sb1 = history sb @ [txt] \<and>
     history sb2 = history sb @ [txt, ''''] \<and>
     pages (base sb1) = [TextArea txt] \<and>
     pages (base sb2) = [TextArea ''''] \<and>
     calls (base sb1) = calls (base sb) @ [Invalidate] \<and>
     calls (base sb2) = calls (base sb) @ [Invalidate, Invalidate]"
  using assms
  by (cases delay) (simp_all add: notify_def update_status_def reset_def get_status_area_def Let_def)

theorem notify_two_phases_witness:
  "(0::rat) \<le> 1 / 100 \<and> (0::rat) \<le> 0 \<and>
   (\<exists>t1 sb1 t2 sb2.
     run_task (status_tui (\<lambda>ps. [])) (notify ''saved'' (Some (3 / 2))) [1 / 100, 0] 0 fresh_status_bar
       = [(t1, sb1), (t2, sb2)] \<and>
     0 + 1 / 10 \<le> t1 \<and> t1 + (case Some (3 / 2) of None \<Rightarrow> 3 / 2 | Some d \<Rightarrow> d) \<le> t2 \<and>
     history sb1 = history fresh_status_bar @ [''saved''] \<and>
     history sb2 = history fresh_status_bar @ [''saved'', ''''] \<and>
     pages (base sb1) = [TextArea ''saved''] \<and>
     pages (base sb2) = [TextArea ''''] \<and>
     calls (base sb1) = calls (base fresh_status_bar) @ [Invalidate] \<and>
     calls (base sb2) = calls (base fresh_status_bar) @ [Invalidate, Invalidate])"
proof -
  have h1: "(0::rat) \<le> 1 / 100" and h2: "(0::rat) \<le> 0" by simp_all
  show ?thesis
    using h1 h2 notify_two_phases [OF h1 h2, of "status_tui (\<lambda>ps. [])" "''saved''" "Some (3 / 2)" 0 fresh_status_bar]
    by blast
qed

end
